theory Spec2Isabelle
  imports Main "HOL-Library.Word" "HOL-Library.Signed_Division" "HOL-Library.Log_Nat"
begin

section \<open>promkv: a key-value store on top of a metrics backend\<close>

text \<open>
  The development embeds \<^verbatim>\<open>promkv.go\<close>: the builder of the remote-write request
  (\<^verbatim>\<open>buildWriteRequest\<close>), the write path (\<^verbatim>\<open>KV.Set\<close>) and the read path
  (\<^verbatim>\<open>KV.Get\<close>, \<^verbatim>\<open>getValues\<close>, \<^verbatim>\<open>getLastValue\<close>). Go's \<^verbatim>\<open>int\<close> is taken to be
  64 bits wide, as on every 64-bit platform.
\<close>

subsection \<open>Machine integers, durations and instants\<close>

text \<open>
  A Go \<^verbatim>\<open>int64\<close> is an \<open>int\<close> kept in range by \<open>int64\<close>, the two's-complement
  wrap-around that Go prescribes for signed overflow.
\<close>

definition int64 :: "int \<Rightarrow> int" where
  "int64 x = signed_take_bit 63 x"

text \<open>
  \<^verbatim>\<open>time.Duration\<close> is an \<^verbatim>\<open>int64\<close> count of nanoseconds; the product of two
  durations is an \<^verbatim>\<open>int64\<close> product and wraps.
\<close>

type_synonym Duration = int

definition Millisecond :: Duration where "Millisecond = 1000000"
definition Second :: Duration where "Second = 1000000000"

definition Duration_mul :: "Duration \<Rightarrow> Duration \<Rightarrow> Duration" where
  "Duration_mul a b = int64 (a * b)"

definition Duration_neg :: "Duration \<Rightarrow> Duration" where
  "Duration_neg d = int64 (- d)"

text \<open>
  A \<^verbatim>\<open>time.Time\<close> is an instant with nanosecond resolution: here the number of
  nanoseconds since the Unix epoch. Go stores whole seconds in an \<^verbatim>\<open>int64\<close> and the
  nanoseconds within the second apart from them, so that adding a duration to an instant
  does not overflow for any instant within billions of years of the epoch; the model
  leaves instants unbounded. \<^verbatim>\<open>UTC()\<close> changes the location of an instant and not the
  instant, and is the identity here.
\<close>

type_synonym Time = int

definition Time_Add :: "Time \<Rightarrow> Duration \<Rightarrow> Time" where
  "Time_Add t d = t + d"

definition Time_Unix :: "Time \<Rightarrow> int" where
  "Time_Unix t = t div 1000000000"

definition Time_Nanosecond :: "Time \<Rightarrow> int" where
  "Time_Nanosecond t = t mod 1000000000"

text \<open>
  The two functions of the backend's \<^verbatim>\<open>timestamp\<close> package, which the source imports:
  \<^verbatim>\<open>FromTime(t) = t.Unix()*1000 + int64(t.Nanosecond())/int64(time.Millisecond)\<close>, the
  instant in milliseconds since the epoch as an \<^verbatim>\<open>int64\<close>, and
  \<^verbatim>\<open>Time(ms) = time.Unix(ms/1000, (ms%1000)*int64(time.Millisecond))\<close>. Go's \<^verbatim>\<open>/\<close>
  and \<^verbatim>\<open>%\<close> truncate towards zero.
\<close>

definition FromTime :: "Time \<Rightarrow> int" where
  "FromTime t = int64 (int64 (Time_Unix t * 1000) + Time_Nanosecond t sdiv Millisecond)"


subsection \<open>Floating-point sample values\<close>

text \<open>
  A sample value is a \<^verbatim>\<open>float64\<close>. The source never computes with floats; it converts
  integers to \<^verbatim>\<open>float64\<close> and back. A finite float is modelled by the rational it
  denotes (the floats are a subset of the rationals; negative zero is identified with
  zero), next to the three special values.
\<close>

datatype float64 = Finite rat | NaN | PosInf | NegInf

text \<open>
  \<^verbatim>\<open>float64(n)\<close> for an integer \<open>n\<close> rounds to the nearest float with a 53-bit
  significand, ties to even. Every integer of magnitude at most \<open>2 ^ 53\<close> is a float.
\<close>

definition round53 :: "int \<Rightarrow> int" where
  "round53 n =
     (if \<bar>n\<bar> \<le> 2 ^ 53 then n
      else let e = nat (bitlen \<bar>n\<bar>) - 53;
               q = \<bar>n\<bar> div 2 ^ e;
               r = \<bar>n\<bar> mod 2 ^ e;
               h = 2 ^ (e - 1)
           in sgn n * (if h < r \<or> (r = h \<and> odd q) then q + 1 else q) * 2 ^ e)"

definition float64_of_int :: "int \<Rightarrow> float64" where
  "float64_of_int n = Finite (of_int (round53 n))"

type_synonym byte = "8 word"

definition float64_of_byte :: "byte \<Rightarrow> float64" where
  "float64_of_byte b = Finite (of_nat (unat b))"

text \<open>
  Converting a float to an integer type discards the fraction (truncation towards zero).
  When the truncated value does not fit the integer type, or the float is not finite, Go
  leaves the result to the implementation: the record \<open>platform\<close> holds what the
  implementation answers then. It also holds the capacity that \<^verbatim>\<open>append\<close> has given
  a slice grown one element at a time to a length, which the language leaves open as
  well.
\<close>

record platform =
  conv_int64 :: "float64 \<Rightarrow> int"
  conv_uint8 :: "float64 \<Rightarrow> byte"
  growcap :: "nat \<Rightarrow> nat"

definition truncate_rat :: "rat \<Rightarrow> int" where
  "truncate_rat q = (if 0 \<le> q then \<lfloor>q\<rfloor> else \<lceil>q\<rceil>)"

fun int64_of_float64 :: "platform \<Rightarrow> float64 \<Rightarrow> int" where
  "int64_of_float64 p (Finite q) =
     (if - (2 ^ 63) \<le> truncate_rat q \<and> truncate_rat q < 2 ^ 63 then truncate_rat q
      else int64 (conv_int64 p (Finite q)))"
| "int64_of_float64 p x = int64 (conv_int64 p x)"

fun byte_of_float64 :: "platform \<Rightarrow> float64 \<Rightarrow> byte" where
  "byte_of_float64 p (Finite q) =
     (if 0 \<le> truncate_rat q \<and> truncate_rat q < 256 then word_of_int (truncate_rat q)
      else conv_uint8 p (Finite q))"
| "byte_of_float64 p x = conv_uint8 p x"

subsection \<open>Errors and readers\<close>

text \<open>
  A Go \<^verbatim>\<open>error\<close> is represented by its message. An \<^verbatim>\<open>io.Reader\<close> delivers its
  bytes in chunks, one per call of \<^verbatim>\<open>Read\<close>, and then ends: with end of file
  (\<open>None\<close>) or with an error. \<^verbatim>\<open>io.ReadAll\<close> returns the bytes read until then and the
  error, if any.
\<close>

datatype error = Error string

datatype 'a reader = Reader (chunks: "'a list list") (failure: "error option")

definition ReadAll :: "'a reader \<Rightarrow> 'a list \<times> error option" where
  "ReadAll r = (concat (chunks r), failure r)"

text \<open>
  Where the result depends on how the reads are cut, a reader is the script of its calls
  of \<^verbatim>\<open>Read\<close>: each entry holds the data the reader has ready for a call and the
  error it returns with that data, if any. A call of \<^verbatim>\<open>Read\<close> with a buffer of \<open>c\<close>
  free bytes takes the whole entry when it fits, with its error, and otherwise the first
  \<open>c\<close> bytes without an error, the rest of the entry staying for the next call. After
  the script every call returns no data and \<^verbatim>\<open>io.EOF\<close>.
\<close>

type_synonym 'a reads = "('a list \<times> error option) list"

definition EOF :: error where
  "EOF = Error ''EOF''"

fun Read :: "'a reads \<Rightarrow> nat \<Rightarrow> 'a list \<times> error option \<times> 'a reads" where
  "Read [] c = ([], Some EOF, [])"
| "Read ((d, e) # rs) c =
     (if length d \<le> c then (d, e, rs) else (take c d, None, (drop c d, e) # rs))"

subsection \<open>The remote-write request\<close>

datatype MetricType =
  UNKNOWN | COUNTER | GAUGE | HISTOGRAM | GAUGEHISTOGRAM | SUMMARY | INFO | STATESET

record MetricMetadata =
  Type :: MetricType
  MetricFamilyName :: string
  Help :: string
  Unit :: string

record Label =
  Label_Name :: string
  Label_Value :: string

record Sample =
  Sample_Value :: float64
  Sample_Timestamp :: int

record TimeSeries =
  Labels :: "Label list"
  Samples :: "Sample list"

record WriteRequest =
  Timeseries :: "TimeSeries list"
  Metadata :: "MetricMetadata list"

text \<open>
  The loop over the bytes of the buffer (lines 245 to 252): byte \<open>b\<close> at index \<open>i\<close>
  becomes the sample with value \<^verbatim>\<open>float64(b)\<close> at
  \<^verbatim>\<open>startTimestamp.Add(time.Second * time.Duration(i))\<close>.
\<close>

fun contentSamples :: "Time \<Rightarrow> nat \<Rightarrow> byte list \<Rightarrow> Sample list" where
  "contentSamples startTimestamp i [] = []"
| "contentSamples startTimestamp i (b # bb) =
     (let offset = Duration_mul Second (int i)
      in \<lparr>Sample_Value = float64_of_byte b,
          Sample_Timestamp = FromTime (Time_Add startTimestamp offset)\<rparr>
         # contentSamples startTimestamp (Suc i) bb)"

text \<open>
  \<^verbatim>\<open>buildWriteRequest(name, r)\<close>. The argument \<open>now\<close> is the one reading of
  \<^verbatim>\<open>time.Now()\<close> the function makes (line 215). The result is the pair that Go
  returns: the request or \<^verbatim>\<open>nil\<close>, and the error or \<^verbatim>\<open>nil\<close>.
\<close>

definition buildWriteRequest ::
  "string \<Rightarrow> byte reader \<Rightarrow> Time \<Rightarrow> WriteRequest option \<times> error option" where
  "buildWriteRequest name r now =
     (let req = \<lparr>Timeseries = [],
                 Metadata =
                   [\<lparr>Type = GAUGE, MetricFamilyName = ''promkv_file_timestamp_seconds'',
                     Help = ''Last timestamp when file was written.'', Unit = ''seconds''\<rparr>,
                    \<lparr>Type = GAUGE, MetricFamilyName = ''promkv_file_size_bytes'',
                     Help = ''Size of file.'', Unit = ''bytes''\<rparr>,
                    \<lparr>Type = GAUGE, MetricFamilyName = ''promkv_file_content'',
                     Help = ''Content of file.'', Unit = ''''\<rparr>]\<rparr>
      in case ReadAll r of
           (bb, Some err) \<Rightarrow> (None, Some err)
         | (bb, None) \<Rightarrow>
             (let dataOffset = Duration_mul Second (int (length bb));
                  startTimestamp = Time_Add now (Duration_neg dataOffset);
                  req = req\<lparr>Timeseries := Timeseries req @
                    [\<lparr>Labels = [\<lparr>Label_Name = ''__name__'',
                                  Label_Value = ''promkv_file_timestamp_seconds''\<rparr>,
                                 \<lparr>Label_Name = ''key'', Label_Value = name\<rparr>],
                      Samples = [\<lparr>Sample_Value = float64_of_int (FromTime startTimestamp),
                                   Sample_Timestamp = FromTime startTimestamp\<rparr>]\<rparr>,
                     \<lparr>Labels = [\<lparr>Label_Name = ''__name__'',
                                  Label_Value = ''promkv_file_size_bytes''\<rparr>,
                                 \<lparr>Label_Name = ''key'', Label_Value = name\<rparr>],
                      Samples = [\<lparr>Sample_Value = float64_of_int (int (length bb)),
                                   Sample_Timestamp = FromTime startTimestamp\<rparr>]\<rparr>]\<rparr>;
                  contentSeries =
                    \<lparr>Labels = [\<lparr>Label_Name = ''__name__'',
                                 Label_Value = ''promkv_file_content''\<rparr>,
                                \<lparr>Label_Name = ''key'', Label_Value = name\<rparr>],
                     Samples = contentSamples startTimestamp 0 bb\<rparr>;
                  req = req\<lparr>Timeseries := Timeseries req @ [contentSeries]\<rparr>
              in (Some req, None)))"

subsection \<open>The write path\<close>

text \<open>
  What \<^verbatim>\<open>KV.Set\<close> uses and the repository does not define: the protocol-buffer
  encoder, the block compressor, the constructor of HTTP requests and the HTTP client. A
  client is the function its method \<^verbatim>\<open>Do\<close> computes. The body of a response is a
  reader of characters (Isabelle's characters are bytes), given by the script of its
  reads.
\<close>

record Request =
  Method :: string
  URL :: string
  Header :: "string \<rightharpoonup> string list"
  Request_Body :: "byte list"

record Response =
  StatusCode :: int
  Status :: string
  Body :: "char reads"

type_synonym Client = "Request \<Rightarrow> error + Response"

record Options =
  APIURL :: string
  WriteURL :: string
  Client :: "Client option"

record KV =
  opts :: Options

record library =
  Marshal :: "WriteRequest option \<Rightarrow> error + byte list"
  snappy_Encode :: "byte list \<Rightarrow> byte list"
  NewRequestWithContext :: "string \<Rightarrow> string \<Rightarrow> byte list \<Rightarrow> error + Request"
  DefaultClient :: Client

definition Header_Add ::
  "(string \<rightharpoonup> string list) \<Rightarrow> string \<Rightarrow> string \<Rightarrow> (string \<rightharpoonup> string list)" where
  "Header_Add h k v = h(k \<mapsto> (case h k of None \<Rightarrow> [v] | Some vs \<Rightarrow> vs @ [v]))"

definition Header_Set ::
  "(string \<rightharpoonup> string list) \<Rightarrow> string \<Rightarrow> string \<Rightarrow> (string \<rightharpoonup> string list)" where
  "Header_Set h k v = h(k \<mapsto> [v])"

text \<open>
  \<^verbatim>\<open>bufio.Scanner\<close> with its default split function \<^verbatim>\<open>ScanLines\<close> and its default
  buffer, after the library's source. \<^verbatim>\<open>ScanLines\<close> yields the bytes before the first
  newline of the data, or all the data at the end of the input, without a trailing
  carriage return, and nothing when a line is not complete yet.
\<close>

definition MaxScanTokenSize :: nat where
  "MaxScanTokenSize = 65536"

definition startBufSize :: nat where
  "startBufSize = 4096"

definition maxConsecutiveEmptyReads :: nat where
  "maxConsecutiveEmptyReads = 100"

definition maxInt :: nat where
  "maxInt = 9223372036854775807"

definition ErrNoProgress :: error where
  "ErrNoProgress = Error ''multiple Read calls return no data or error''"

definition dropCR :: "string \<Rightarrow> string" where
  "dropCR d = (if d \<noteq> [] \<and> last d = CHR 0x0D then butlast d else d)"

definition ScanLines :: "string \<Rightarrow> bool \<Rightarrow> string option" where
  "ScanLines data atEOF =
     (if atEOF \<and> data = [] then None
      else if CHR 0x0A \<in> set data then Some (dropCR (takeWhile (\<lambda>c. c \<noteq> CHR 0x0A) data))
      else if atEOF then Some (dropCR data)
      else None)"

text \<open>
  The inner loop of \<^verbatim>\<open>Scan\<close> reads until a call returns data or an error; after more
  than \<^verbatim>\<open>maxConsecutiveEmptyReads\<close> calls without either it gives up with
  \<^verbatim>\<open>io.ErrNoProgress\<close>. The argument \<open>k\<close> is the number of empty reads still
  allowed.
\<close>

fun fill :: "nat \<Rightarrow> 'a reads \<Rightarrow> nat \<Rightarrow> 'a list \<times> error option \<times> 'a reads" where
  "fill 0 rs c =
     (case Read rs c of
        (d, Some err, rs') \<Rightarrow> (d, Some err, rs')
      | (d, None, rs') \<Rightarrow> if d \<noteq> [] then (d, None, rs') else (d, Some ErrNoProgress, rs'))"
| "fill (Suc k) rs c =
     (case Read rs c of
        (d, Some err, rs') \<Rightarrow> (d, Some err, rs')
      | (d, None, rs') \<Rightarrow> if d \<noteq> [] then (d, None, rs') else fill k rs' c)"

text \<open>
  The loop of the first call of \<^verbatim>\<open>Scan\<close>, on the size of the buffer, the data read
  so far, the error met so far and the reads to come. It tries the split function on the
  data when there is data or an error; without a token it stops after an error, stops
  with \<^verbatim>\<open>ErrTooLong\<close> when the buffer is full at its greatest size, and otherwise
  doubles a full buffer (from \<^verbatim>\<open>startBufSize\<close> up to \<^verbatim>\<open>MaxScanTokenSize\<close>) and
  reads on. The result is the token, \<open>None\<close> when \<^verbatim>\<open>Scan\<close> returns false. In the
  first call no token has been handed out, so the data start at the front of the buffer.
\<close>

function scanLoop :: "nat \<Rightarrow> string \<Rightarrow> error option \<Rightarrow> char reads \<Rightarrow> string option" where
  "scanLoop buflen data err rs =
     (case (if data \<noteq> [] \<or> err \<noteq> None then ScanLines data (err \<noteq> None) else None) of
        Some token \<Rightarrow> Some token
      | None \<Rightarrow>
          if err \<noteq> None then None
          else if length data = buflen \<and> (MaxScanTokenSize \<le> buflen \<or> maxInt div 2 < buflen)
          then None
          else (let newSize =
                      (if length data = buflen
                       then min (if buflen * 2 = 0 then startBufSize else buflen * 2)
                              MaxScanTokenSize
                       else buflen)
                in case fill maxConsecutiveEmptyReads rs (newSize - length data) of
                     (d, e, rs') \<Rightarrow> scanLoop newSize (data @ d) e rs'))"
  by pat_completeness auto
termination
proof -
  let ?size = "\<lambda>qs :: char reads. length (concat (map fst qs)) + length qs"
  have rd: "?size qs' \<le> ?size qs \<and> (b \<noteq> [] \<longrightarrow> ?size qs' < ?size qs)"
    if "Read qs c = (b, f, qs')" for qs qs' c b f
    using that by (cases qs) (auto split: if_splits)
  have fl: "(f = None \<longrightarrow> b \<noteq> []) \<and> ?size qs' \<le> ?size qs
            \<and> (b \<noteq> [] \<longrightarrow> ?size qs' < ?size qs)"
    if "fill k qs c = (b, f, qs')" for k c b f qs qs'
    using that
  proof (induction k arbitrary: qs)
    case 0
    then show ?case
      using rd [of qs c] by (auto split: prod.splits option.splits if_splits)
  next
    case (Suc k)
    show ?case
    proof (cases "Read qs c")
      case (fields b0 f0 q0)
      show ?thesis
      proof (cases "f0 = None \<and> b0 = []")
        case True
        with fields Suc.prems have "fill k q0 c = (b, f, qs')" by simp
        from Suc.IH [OF this] rd [OF fields] show ?thesis by auto
      next
        case False
        with fields Suc.prems rd [OF fields] show ?thesis
          by (auto split: option.splits if_splits)
      qed
    qed
  qed
  show ?thesis
    by (relation "measures [\<lambda>(b, d, e, rs). if e = None then 1 else 0,
                            \<lambda>(b, d, e, rs). length (concat (map fst rs)) + length rs]")
       (auto dest!: fl [OF sym] split: if_splits)
qed

declare scanLoop.simps [simp del]

text \<open>The first call of \<^verbatim>\<open>Scan\<close> on a new scanner: no buffer yet, no data, no error.\<close>

definition Scan :: "char reads \<Rightarrow> string option" where
  "Scan body = scanLoop 0 [] None body"

definition Errorf_status :: "string \<Rightarrow> string \<Rightarrow> error" where
  "Errorf_status status line = Error (''server returned HTTP status '' @ status @ '': '' @ line)"

text \<open>The four header assignments of lines 152 to 155, in order.\<close>

definition writeHeaders :: "(string \<rightharpoonup> string list) \<Rightarrow> (string \<rightharpoonup> string list)" where
  "writeHeaders h =
     (let h1 = Header_Add h ''Content-Encoding'' ''snappy'';
          h2 = Header_Add h1 ''Content-Type'' ''application/x-protobuf'';
          h3 = Header_Set h2 ''User-Agent'' ''promkv/v0.0.0'';
          h4 = Header_Set h3 ''X-Prometheus-Remote-Write-Version'' ''0.1.0''
      in h4)"

text \<open>
  \<^verbatim>\<open>KV.Set(ctx, name, r)\<close>; the result is the error, \<open>None\<close> for \<^verbatim>\<open>nil\<close>. The
  argument \<open>now\<close> is the clock reading that \<open>buildWriteRequest\<close> makes. The deferred
  draining and closing of the response body has no part in the result and is left out.
\<close>

definition KV_Set ::
  "library \<Rightarrow> KV \<Rightarrow> string \<Rightarrow> byte reader \<Rightarrow> Time \<Rightarrow> error option" where
  "KV_Set lib db name r now =
     (case buildWriteRequest name r now of
        (_, Some err) \<Rightarrow> Some err
      | (req, None) \<Rightarrow>
     (case Marshal lib req of
        Inl err \<Rightarrow> Some err
      | Inr pBuf \<Rightarrow>
     (let compressed = snappy_Encode lib pBuf
      in case NewRequestWithContext lib ''POST'' (WriteURL (opts db)) compressed of
        Inl err \<Rightarrow> Some err
      | Inr httpReq0 \<Rightarrow>
     (let httpReq = httpReq0\<lparr>Header := writeHeaders (Header httpReq0)\<rparr>;
          cli = (case Client (opts db) of None \<Rightarrow> DefaultClient lib | Some c \<Rightarrow> c)
      in case cli httpReq of
        Inl err \<Rightarrow> Some err
      | Inr httpResp \<Rightarrow>
          if StatusCode httpResp sdiv 100 \<noteq> 2
          then (let line = (case Scan (Body httpResp) of Some t \<Rightarrow> t | None \<Rightarrow> [])
                in Some (Errorf_status (Status httpResp) line))
          else None))))"

subsection \<open>The read path\<close>

text \<open>
  The values of the query API: a \<^verbatim>\<open>model.Value\<close> is a matrix (a list of sample
  streams), or one of the other result types, or \<^verbatim>\<open>nil\<close>. A run of the read path
  returns or panics.
\<close>

record SamplePair =
  Pair_Timestamp :: int
  Pair_Value :: float64

record SampleStream =
  Metric :: "string \<rightharpoonup> string"
  Values :: "SamplePair list"

datatype Value = Matrix "SampleStream list" | Vector | Scalar | StringValue | NilValue

datatype panic = IndexOutOfRange | SliceBoundsOutOfRange | UnrecognizedType

datatype 'a run = Returns 'a | Panics panic


text \<open>
  \<^verbatim>\<open>getValues\<close>: the values of the last series of a matrix, in order. Indexing an
  empty matrix at \<^verbatim>\<open>len(val)-1\<close> panics.
\<close>

definition getValues :: "Value \<Rightarrow> float64 list run" where
  "getValues val =
     (case val of
        Matrix m \<Rightarrow>
          if m = [] then Panics IndexOutOfRange
          else (let samples = Values (last m) in Returns (map Pair_Value samples))
      | _ \<Rightarrow> Panics UnrecognizedType)"


text \<open>
  The slice expression \<^verbatim>\<open>points[:n]\<close> on the slice that \<^verbatim>\<open>getValues\<close> returns. The
  bound of a slice expression is the capacity of the slice, not its length: the slice is
  \<^verbatim>\<open>nil\<close>, of capacity 0, when nothing was appended, and has at least the capacity of
  its length otherwise, the elements past the length being zero. A bound that is negative
  or beyond the capacity panics.
\<close>

definition append_cap :: "platform \<Rightarrow> nat \<Rightarrow> nat" where
  "append_cap p n = (if n = 0 then 0 else max n (growcap p n))"

definition slice_to :: "platform \<Rightarrow> float64 list \<Rightarrow> int \<Rightarrow> float64 list run" where
  "slice_to p points n =
     (let c = append_cap p (length points)
      in if n < 0 \<or> int c < n then Panics SliceBoundsOutOfRange
         else Returns (take (nat n) (points @ replicate (c - length points) (Finite 0))))"

text \<open>
  Lines 98 to 103 of \<^verbatim>\<open>KV.Get\<close>: the values of the content query, cut to
  \<^verbatim>\<open>int(fileSizeBytes)\<close> of them and converted to bytes one by one.
\<close>

definition contentBytes :: "platform \<Rightarrow> Value \<Rightarrow> float64 \<Rightarrow> byte list run" where
  "contentBytes p val fileSizeBytes =
     (case getValues val of
        Panics x \<Rightarrow> Panics x
      | Returns points \<Rightarrow>
          (case slice_to p points (int64_of_float64 p fileSizeBytes) of
             Panics x \<Rightarrow> Panics x
           | Returns floatBytes \<Rightarrow> Returns (map (byte_of_float64 p) floatBytes)))"





subsection \<open>Reading a request and a reference backend\<close>

text \<open>
  The samples a request holds for a metric: those of the series whose label
  \<^verbatim>\<open>__name__\<close> is the metric. \<open>builtSamples\<close> reads them off the request that
  \<open>buildWriteRequest\<close> returns (none when it returns no request).
\<close>

definition metricName :: "TimeSeries \<Rightarrow> string option" where
  "metricName ts = map_of (map (\<lambda>l. (Label_Name l, Label_Value l)) (Labels ts)) ''__name__''"

definition samplesOf :: "WriteRequest \<Rightarrow> string \<Rightarrow> Sample list" where
  "samplesOf req metric =
     concat (map Samples (filter (\<lambda>ts. metricName ts = Some metric) (Timeseries req)))"

definition builtSamples :: "string \<Rightarrow> byte reader \<Rightarrow> Time \<Rightarrow> string \<Rightarrow> Sample list" where
  "builtSamples name r now metric =
     (case fst (buildWriteRequest name r now) of
        None \<Rightarrow> []
      | Some req \<Rightarrow> samplesOf req metric)"

text \<open>
  The instant \<^verbatim>\<open>startTimestamp\<close> of line 215 for a buffer of \<open>n\<close> bytes, and the
  clock readings that \<^verbatim>\<open>UnixNano\<close> can represent (the years 1678 to 2262).
\<close>

definition startTimestampOf :: "Time \<Rightarrow> nat \<Rightarrow> Time" where
  "startTimestampOf now n = Time_Add now (Duration_neg (Duration_mul Second (int n)))"

definition wallClock :: "Time \<Rightarrow> bool" where
  "wallClock now \<longleftrightarrow> - (2 ^ 63) \<le> now \<and> now < 2 ^ 63"






subsection \<open>Example environments\<close>

text \<open>
  One platform among those the language allows (conversions out of range give zero,
  \<^verbatim>\<open>append\<close> grows a slice to exactly its length), the verb \<^verbatim>\<open>%q\<close> on keys without
  special characters, a library that encodes to the empty message, and a store with a
  given client.
\<close>

definition examplePlatform :: platform where
  "examplePlatform = \<lparr>conv_int64 = (\<lambda>x. 0), conv_uint8 = (\<lambda>x. 0), growcap = (\<lambda>n. n)\<rparr>"


definition exampleLibrary :: library where
  "exampleLibrary =
     \<lparr>Marshal = (\<lambda>req. Inr []),
      snappy_Encode = (\<lambda>b. b),
      NewRequestWithContext =
        (\<lambda>method url body.
           Inr \<lparr>Method = method, URL = url, Header = Map.empty, Request_Body = body\<rparr>),
      DefaultClient = (\<lambda>req. Inl (Error ''connection refused''))\<rparr>"

definition exampleKV :: "Client \<Rightarrow> KV" where
  "exampleKV cli =
     \<lparr>opts = \<lparr>APIURL = ''http://localhost:9090'',
              WriteURL = ''http://localhost:9090/api/v1/write'',
              Client = Some cli\<rparr>\<rparr>"

definition respond :: "int \<Rightarrow> string \<Rightarrow> char reads \<Rightarrow> Client" where
  "respond code status body =
     (\<lambda>req. Inr \<lparr>StatusCode = code, Status = status, Body = body\<rparr>)"

text \<open>
  What a body delivers to a reader that gives up as the scanner does: the data of its
  reads up to the first error, that read's data included, or up to a run of more than
  \<^verbatim>\<open>maxConsecutiveEmptyReads\<close> reads without data and without error (\<open>k\<close> counts the
  empty reads still allowed). The first line of a body is what it delivers before the
  first newline. Then the series of the request that \<open>buildWriteRequest\<close> returns.
\<close>

fun deliverFrom :: "nat \<Rightarrow> 'a reads \<Rightarrow> 'a list" where
  "deliverFrom k [] = []"
| "deliverFrom k ((d, e) # rs) =
     (if e \<noteq> None then d
      else if d \<noteq> [] then d @ deliverFrom maxConsecutiveEmptyReads rs
      else (case k of 0 \<Rightarrow> [] | Suc k' \<Rightarrow> deliverFrom k' rs))"

definition delivered :: "'a reads \<Rightarrow> 'a list" where
  "delivered body = deliverFrom maxConsecutiveEmptyReads body"

definition firstLine :: "char reads \<Rightarrow> string" where
  "firstLine body = takeWhile (\<lambda>c. c \<noteq> CHR 0x0A) (delivered body)"





section \<open>Properties\<close>

subsection \<open>Arithmetic of instants\<close>

lemma int64_id: "- (2 ^ 63) \<le> x \<Longrightarrow> x < 2 ^ 63 \<Longrightarrow> int64 x = x"
  unfolding int64_def by (rule signed_take_bit_int_eq_self) simp_all

lemma int64_add_left: "int64 (int64 a + b) = int64 (a + b)"
proof -
  have "int64 (int64 a + b) = int64 (int64 (int64 a) + int64 b)"
    unfolding int64_def by (simp only: signed_take_bit_add)
  also have "\<dots> = int64 (int64 a + int64 b)"
    by (simp add: int64_def)
  also have "\<dots> = int64 (a + b)"
    unfolding int64_def by (simp only: signed_take_bit_add)
  finally show ?thesis .
qed

lemma millis_split:
  "(t::int) div 1000000000 * 1000 + (t mod 1000000000) div 1000000 = t div 1000000"
proof -
  have d: "t div (1000000 * 1000) = (t div 1000000) div 1000"
    by (rule zdiv_zmult2_eq) simp
  have m: "t mod (1000000 * 1000) = 1000000 * ((t div 1000000) mod 1000) + t mod 1000000"
    by (rule zmod_zmult2_eq) simp
  have "(t mod 1000000000) div 1000000 = (t div 1000000) mod 1000"
  proof -
    have "(t mod 1000000000) div 1000000
            = (t mod 1000000 + 1000000 * ((t div 1000000) mod 1000)) div 1000000"
      using m by (simp add: add.commute)
    also have "\<dots> = (t mod 1000000) div 1000000 + (t div 1000000) mod 1000"
      by (simp only: div_mult_self2 [of 1000000 "t mod 1000000" "(t div 1000000) mod 1000"])
    also have "\<dots> = (t div 1000000) mod 1000"
      by simp
    finally show ?thesis .
  qed
  with d show ?thesis by simp
qed

lemma sdiv_nonneg: "0 \<le> (a::int) \<Longrightarrow> 0 < b \<Longrightarrow> a sdiv b = a div b"
  by (cases "a = 0") (simp_all add: signed_divide_int_def)

lemma FromTime_millis: "FromTime t = int64 (t div 1000000)"
proof -
  have "Time_Nanosecond t sdiv Millisecond = (t mod 1000000000) div 1000000"
    unfolding Time_Nanosecond_def Millisecond_def by (rule sdiv_nonneg) simp_all
  then have "FromTime t = int64 (t div 1000000000 * 1000 + (t mod 1000000000) div 1000000)"
    by (simp add: FromTime_def Time_Unix_def int64_add_left)
  then show ?thesis by (simp only: millis_split)
qed

lemma FromTime_shift: "FromTime (t + 1000000000 * i) = int64 (FromTime t + 1000 * i)"
proof -
  have "(t + 1000000000 * i) div 1000000 = t div 1000000 + 1000 * i"
  proof -
    have "(t + 1000000 * (1000 * i)) div 1000000 = t div 1000000 + 1000 * i"
      by (simp only: div_mult_self2 [of 1000000 t "1000 * i"])
    then show ?thesis by (simp add: mult.assoc)
  qed
  then show ?thesis by (simp add: FromTime_millis int64_add_left)
qed

subsection \<open>The request that is built\<close>

lemma Duration_mul_Second:
  "0 \<le> i \<Longrightarrow> i \<le> 9223372036 \<Longrightarrow> Duration_mul Second i = 1000000000 * i"
  unfolding Duration_mul_def Second_def by (rule int64_id) simp_all

lemma startTimestampOf_eq:
  "n \<le> 9223372036 \<Longrightarrow> startTimestampOf now n = now - 1000000000 * int n"
proof -
  assume n: "n \<le> 9223372036"
  then have "Duration_mul Second (int n) = 1000000000 * int n"
    by (intro Duration_mul_Second) simp_all
  moreover have "int64 (- (1000000000 * int n)) = - (1000000000 * int n)"
    using n by (intro int64_id) simp_all
  ultimately show ?thesis
    by (simp add: startTimestampOf_def Duration_neg_def Time_Add_def)
qed

lemma length_contentSamples: "length (contentSamples s i bb) = length bb"
  by (induction bb arbitrary: i) (simp_all add: Let_def)

lemma nth_contentSamples:
  "k < length bb \<Longrightarrow>
   contentSamples s i bb ! k =
     \<lparr>Sample_Value = float64_of_byte (bb ! k),
      Sample_Timestamp = FromTime (Time_Add s (Duration_mul Second (int (i + k))))\<rparr>"
proof (induction bb arbitrary: i k)
  case Nil
  then show ?case by simp
next
  case (Cons b bb)
  show ?case
  proof (cases k)
    case 0
    then show ?thesis by (simp add: Let_def)
  next
    case (Suc j)
    with Cons.prems have "j < length bb" by simp
    from Cons.IH [OF this, of "Suc i"] Suc show ?thesis by (simp add: Let_def)
  qed
qed

lemma buildWriteRequest_read_ok:
  assumes "ReadAll r = (B, None)"
  shows "buildWriteRequest name r now =
    (Some \<lparr>Timeseries =
        [\<lparr>Labels = [\<lparr>Label_Name = ''__name__'', Label_Value = ''promkv_file_timestamp_seconds''\<rparr>,
                    \<lparr>Label_Name = ''key'', Label_Value = name\<rparr>],
          Samples = [\<lparr>Sample_Value = float64_of_int (FromTime (startTimestampOf now (length B))),
                      Sample_Timestamp = FromTime (startTimestampOf now (length B))\<rparr>]\<rparr>,
         \<lparr>Labels = [\<lparr>Label_Name = ''__name__'', Label_Value = ''promkv_file_size_bytes''\<rparr>,
                    \<lparr>Label_Name = ''key'', Label_Value = name\<rparr>],
          Samples = [\<lparr>Sample_Value = float64_of_int (int (length B)),
                      Sample_Timestamp = FromTime (startTimestampOf now (length B))\<rparr>]\<rparr>,
         \<lparr>Labels = [\<lparr>Label_Name = ''__name__'', Label_Value = ''promkv_file_content''\<rparr>,
                    \<lparr>Label_Name = ''key'', Label_Value = name\<rparr>],
          Samples = contentSamples (startTimestampOf now (length B)) 0 B\<rparr>],
      Metadata =
        [\<lparr>Type = GAUGE, MetricFamilyName = ''promkv_file_timestamp_seconds'',
          Help = ''Last timestamp when file was written.'', Unit = ''seconds''\<rparr>,
         \<lparr>Type = GAUGE, MetricFamilyName = ''promkv_file_size_bytes'',
          Help = ''Size of file.'', Unit = ''bytes''\<rparr>,
         \<lparr>Type = GAUGE, MetricFamilyName = ''promkv_file_content'',
          Help = ''Content of file.'', Unit = ''''\<rparr>]\<rparr>, None)"
  using assms by (simp add: buildWriteRequest_def Let_def startTimestampOf_def)

lemma buildWriteRequest_read_error:
  assumes "ReadAll r = (B, Some err)"
  shows "buildWriteRequest name r now = (None, Some err)"
  using assms by (simp add: buildWriteRequest_def)

lemma builtSamples_start:
  assumes "ReadAll r = (B, None)"
  shows "builtSamples name r now ''promkv_file_timestamp_seconds'' =
    [\<lparr>Sample_Value = float64_of_int (FromTime (startTimestampOf now (length B))),
      Sample_Timestamp = FromTime (startTimestampOf now (length B))\<rparr>]"
  by (simp add: builtSamples_def buildWriteRequest_read_ok [OF assms] samplesOf_def metricName_def)

lemma builtSamples_size:
  assumes "ReadAll r = (B, None)"
  shows "builtSamples name r now ''promkv_file_size_bytes'' =
    [\<lparr>Sample_Value = float64_of_int (int (length B)),
      Sample_Timestamp = FromTime (startTimestampOf now (length B))\<rparr>]"
  by (simp add: builtSamples_def buildWriteRequest_read_ok [OF assms] samplesOf_def metricName_def)

lemma builtSamples_content:
  assumes "ReadAll r = (B, None)"
  shows "builtSamples name r now ''promkv_file_content'' =
    contentSamples (startTimestampOf now (length B)) 0 B"
  by (simp add: builtSamples_def buildWriteRequest_read_ok [OF assms] samplesOf_def metricName_def)

lemma round53_exact: "\<bar>n\<bar> \<le> 9007199254740992 \<Longrightarrow> round53 n = n"
  by (simp add: round53_def)

subsection \<open>The builder: counts, determinism, structure, errors\<close>

text \<open>
  C3. For every key and every buffer \<open>B\<close> read from the input, the request built holds
  exactly one sample for the size metric, exactly one for the start metric and exactly
  \<open>length B\<close> for the content metric; the value of the size sample is
  \<^verbatim>\<open>float64(len(B))\<close>, which is \<open>length B\<close> itself for every length up to \<open>2 ^ 53\<close>
  (no Go slice is longer).
\<close>

theorem buildWriteRequest_sample_counts:
  assumes "ReadAll r = (B, None)"
  shows "length (builtSamples name r now ''promkv_file_size_bytes'') = 1
       \<and> length (builtSamples name r now ''promkv_file_timestamp_seconds'') = 1
       \<and> length (builtSamples name r now ''promkv_file_content'') = length B
       \<and> map Sample_Value (builtSamples name r now ''promkv_file_size_bytes'')
           = [float64_of_int (int (length B))]
       \<and> (length B \<le> 2 ^ 53 \<longrightarrow>
            map Sample_Value (builtSamples name r now ''promkv_file_size_bytes'')
              = [Finite (of_nat (length B))])"
proof -
  have "length B \<le> 2 ^ 53 \<Longrightarrow> round53 (int (length B)) = int (length B)"
    by (rule round53_exact) simp
  then show ?thesis
    by (simp add: builtSamples_size [OF assms] builtSamples_start [OF assms]
        builtSamples_content [OF assms] length_contentSamples float64_of_int_def)
qed

theorem buildWriteRequest_sample_counts_witness:
  "ReadAll (Reader [[104], [105]] None) = ([104, 105 :: byte], None)
   \<and> length (builtSamples ''greeting'' (Reader [[104], [105]] None) 1700000000123456789
        ''promkv_file_content'') = 2
   \<and> length [104, 105 :: byte] \<le> 2 ^ 53
   \<and> map Sample_Value (builtSamples ''greeting'' (Reader [[104], [105]] None)
        1700000000123456789 ''promkv_file_size_bytes'') = [Finite 2]"
proof -
  have r: "ReadAll (Reader [[104], [105]] None) = ([104, 105 :: byte], None)"
    by (simp add: ReadAll_def)
  show ?thesis
    using r buildWriteRequest_sample_counts [OF r, of "''greeting''" 1700000000123456789]
    by (simp add: float64_of_int_def round53_def)
qed



text \<open>
  C9. For every key and every buffer read, the empty one too, the request holds exactly
  three series in the order start, size, content, each labelled \<^verbatim>\<open>__name__\<close> and
  \<^verbatim>\<open>key\<close>; the content series is there with as many samples as the buffer has bytes;
  the metadata are three descriptors of type gauge, one for each series.
\<close>

theorem buildWriteRequest_three_series:
  assumes "ReadAll r = (B, None)"
  shows "\<exists>req. buildWriteRequest name r now = (Some req, None)
       \<and> map Labels (Timeseries req) =
           [[\<lparr>Label_Name = ''__name__'', Label_Value = ''promkv_file_timestamp_seconds''\<rparr>,
             \<lparr>Label_Name = ''key'', Label_Value = name\<rparr>],
            [\<lparr>Label_Name = ''__name__'', Label_Value = ''promkv_file_size_bytes''\<rparr>,
             \<lparr>Label_Name = ''key'', Label_Value = name\<rparr>],
            [\<lparr>Label_Name = ''__name__'', Label_Value = ''promkv_file_content''\<rparr>,
             \<lparr>Label_Name = ''key'', Label_Value = name\<rparr>]]
       \<and> map (\<lambda>ts. length (Samples ts)) (Timeseries req) = [1, 1, length B]
       \<and> map (\<lambda>m. (Type m, MetricFamilyName m)) (Metadata req) =
           [(GAUGE, ''promkv_file_timestamp_seconds''),
            (GAUGE, ''promkv_file_size_bytes''),
            (GAUGE, ''promkv_file_content'')]"
  by (simp add: buildWriteRequest_read_ok [OF assms] length_contentSamples)

theorem buildWriteRequest_three_series_witness:
  "ReadAll (Reader [] None) = ([] :: byte list, None)
   \<and> (\<exists>req. buildWriteRequest ''k'' (Reader [] None) 1700000000123456789 = (Some req, None)
        \<and> map (\<lambda>ts. length (Samples ts)) (Timeseries req) = [1, 1, 0]
        \<and> length (Metadata req) = 3)"
proof -
  have r: "ReadAll (Reader [] None) = ([] :: byte list, None)"
    by (simp add: ReadAll_def)
  from buildWriteRequest_three_series [OF r, of "''k''" 1700000000123456789]
  obtain req where
    "buildWriteRequest ''k'' (Reader [] None) 1700000000123456789 = (Some req, None)"
    "map (\<lambda>ts. length (Samples ts)) (Timeseries req) = [1, 1, 0]"
    "map (\<lambda>m. (Type m, MetricFamilyName m)) (Metadata req) =
           [(GAUGE, ''promkv_file_timestamp_seconds''),
            (GAUGE, ''promkv_file_size_bytes''),
            (GAUGE, ''promkv_file_content'')]"
    by auto
  moreover from this(3) have "length (Metadata req) = 3"
    using length_map [of "\<lambda>m. (Type m, MetricFamilyName m)" "Metadata req"] by simp
  ultimately show ?thesis using r by (intro conjI exI [of _ req]) simp_all
qed

text \<open>
  C10. \<open>buildWriteRequest\<close> returns an error exactly when reading the input fails, and
  the error is the reader's; with an error it returns no request, and without one it
  returns a request. A source that does not fail, such as a buffer in memory, always
  gives a request and no error.
\<close>

theorem buildWriteRequest_error_iff:
  "snd (buildWriteRequest name r now) = snd (ReadAll r)
   \<and> (snd (buildWriteRequest name r now) \<noteq> None \<longleftrightarrow> snd (ReadAll r) \<noteq> None)
   \<and> (snd (buildWriteRequest name r now) \<noteq> None \<longrightarrow> fst (buildWriteRequest name r now) = None)
   \<and> (snd (buildWriteRequest name r now) = None \<longrightarrow> fst (buildWriteRequest name r now) \<noteq> None)
   \<and> snd (buildWriteRequest name (Reader cs None) now) = None
   \<and> fst (buildWriteRequest name (Reader cs None) now) \<noteq> None"
proof (cases "ReadAll r")
  case (Pair B e)
  have ok: "ReadAll (Reader cs None) = (concat cs, None)"
    by (simp add: ReadAll_def)
  show ?thesis
  proof (cases e)
    case None
    with Pair show ?thesis
      by (simp add: buildWriteRequest_read_ok [of r B] buildWriteRequest_read_ok [OF ok])
  next
    case (Some err)
    with Pair show ?thesis
      by (simp add: buildWriteRequest_read_error [of r B err] buildWriteRequest_read_ok [OF ok])
  qed
qed

theorem buildWriteRequest_error_iff_witness:
  "snd (ReadAll (Reader [[1, 2 :: byte]] (Some (Error ''unexpected EOF'')))) \<noteq> None
   \<and> snd (buildWriteRequest ''k'' (Reader [[1, 2]] (Some (Error ''unexpected EOF''))) 0)
       = Some (Error ''unexpected EOF'')
   \<and> fst (buildWriteRequest ''k'' (Reader [[1, 2]] (Some (Error ''unexpected EOF''))) 0) = None
   \<and> snd (buildWriteRequest ''k'' (Reader [[1, 2]] None) 0) = None
   \<and> fst (buildWriteRequest ''k'' (Reader [[1, 2]] None) 0) \<noteq> None"
  using buildWriteRequest_error_iff
    [of "''k''" "Reader [[1, 2]] (Some (Error ''unexpected EOF''))" 0 "[[1, 2]]"]
  by (simp add: ReadAll_def)

subsection \<open>Content samples: values and spacing\<close>

lemma FromTime_in_range:
  assumes "- (2 ^ 64) \<le> t" "t \<le> 2 ^ 64"
  shows "FromTime t = t div 1000000"
proof -
  have "- (2 ^ 63) \<le> t div 1000000" "t div 1000000 < 2 ^ 63"
    using assms by simp_all
  then show ?thesis
    by (simp add: FromTime_millis int64_id)
qed

lemma content_timestamp:
  assumes "i < length B" "length B \<le> 9223372036"
  shows "Sample_Timestamp (contentSamples (startTimestampOf now (length B)) 0 B ! i)
       = FromTime (now - 1000000000 * (int (length B) - int i))"
proof -
  have "Duration_mul Second (int i) = 1000000000 * int i"
    using assms by (intro Duration_mul_Second) simp_all
  then show ?thesis
    using assms
    by (simp add: nth_contentSamples startTimestampOf_eq Time_Add_def algebra_simps)
qed

text \<open>
  C2, as amended. For every buffer \<open>B\<close> of at most 9223372036 bytes and every index
  \<open>i\<close> below its length, content sample \<open>i\<close> has the value of byte \<open>B ! i\<close>, a
  number from 0 to 255, and its timestamp is that of content sample 0 plus \<open>i\<close> seconds
  (1000 \<open>i\<close> milliseconds, in \<^verbatim>\<open>int64\<close> arithmetic); the value of the start sample
  is \<^verbatim>\<open>float64\<close> of the timestamp of content sample 0. For a clock reading in the
  range of \<^verbatim>\<open>UnixNano\<close> the sum does not wrap and the conversion is exact.
\<close>

theorem content_samples_value_and_spacing:
  assumes "ReadAll r = (B, None)" and "length B \<le> 9223372036" and "i < length B"
  shows "Sample_Value (builtSamples name r now ''promkv_file_content'' ! i)
           = Finite (of_nat (unat (B ! i)))
       \<and> unat (B ! i) \<le> 255
       \<and> Sample_Timestamp (builtSamples name r now ''promkv_file_content'' ! i)
           = int64 (Sample_Timestamp (builtSamples name r now ''promkv_file_content'' ! 0)
                    + 1000 * int i)
       \<and> map Sample_Value (builtSamples name r now ''promkv_file_timestamp_seconds'')
           = [float64_of_int
                (Sample_Timestamp (builtSamples name r now ''promkv_file_content'' ! 0))]
       \<and> (wallClock now \<longrightarrow>
            Sample_Timestamp (builtSamples name r now ''promkv_file_content'' ! i)
              = Sample_Timestamp (builtSamples name r now ''promkv_file_content'' ! 0)
                + 1000 * int i
          \<and> map Sample_Value (builtSamples name r now ''promkv_file_timestamp_seconds'')
              = [Finite (of_int
                  (Sample_Timestamp (builtSamples name r now ''promkv_file_content'' ! 0)))])"
proof -
  let ?c = "builtSamples name r now ''promkv_file_content''"
  let ?n = "int (length B)"
  let ?s = "now - 1000000000 * ?n"
  have c: "?c = contentSamples (startTimestampOf now (length B)) 0 B"
    by (rule builtSamples_content [OF assms(1)])
  have pos: "0 < length B" using assms(3) by (cases B) simp_all
  have ti: "Sample_Timestamp (?c ! i) = FromTime (?s + 1000000000 * int i)"
    using content_timestamp [OF assms(3) assms(2), of now] by (simp add: c algebra_simps)
  have t0: "Sample_Timestamp (?c ! 0) = FromTime ?s"
    using content_timestamp [OF pos assms(2), of now] by (simp add: c)
  have val: "Sample_Value (?c ! i) = Finite (of_nat (unat (B ! i)))"
    using assms(3) by (simp add: c nth_contentSamples float64_of_byte_def)
  have byte: "unat (B ! i) \<le> 255"
    using unsigned_less [of "B ! i", where ?'a = nat] by simp
  have spacing: "Sample_Timestamp (?c ! i) = int64 (Sample_Timestamp (?c ! 0) + 1000 * int i)"
    by (simp only: ti t0 FromTime_shift)
  have start: "map Sample_Value (builtSamples name r now ''promkv_file_timestamp_seconds'')
                 = [float64_of_int (Sample_Timestamp (?c ! 0))]"
    using assms(2) by (simp add: builtSamples_start [OF assms(1)] t0 startTimestampOf_eq)
  have exact: "Sample_Timestamp (?c ! i) = Sample_Timestamp (?c ! 0) + 1000 * int i
             \<and> map Sample_Value (builtSamples name r now ''promkv_file_timestamp_seconds'')
                 = [Finite (of_int (Sample_Timestamp (?c ! 0)))]"
    if clock: "wallClock now"
  proof -
    have lo: "- (2 ^ 64) \<le> ?s" and hi: "?s \<le> 2 ^ 64"
      using clock assms(2) by (simp_all add: wallClock_def)
    have f0: "FromTime ?s = ?s div 1000000"
      by (rule FromTime_in_range [OF lo hi])
    have lo': "- (2 ^ 64) \<le> ?s + 1000000000 * int i"
      and hi': "?s + 1000000000 * int i \<le> 2 ^ 64"
      using clock assms(2,3) by (simp_all add: wallClock_def)
    have fi: "FromTime (?s + 1000000000 * int i) = (?s + 1000000000 * int i) div 1000000"
      by (rule FromTime_in_range [OF lo' hi'])
    have "(?s + 1000000 * (1000 * int i)) div 1000000 = ?s div 1000000 + 1000 * int i"
      by (simp only: div_mult_self2 [of 1000000 ?s "1000 * int i"])
    then have sum: "(?s + 1000000000 * int i) div 1000000 = ?s div 1000000 + 1000 * int i"
      by (simp add: mult.assoc)
    have small: "\<bar>?s div 1000000\<bar> \<le> 9007199254740992"
      using lo hi by simp
    show ?thesis
      using start small by (simp add: ti t0 fi f0 sum float64_of_int_def round53_exact)
  qed
  from val byte spacing start exact show ?thesis by blast
qed

theorem content_samples_value_and_spacing_witness:
  "ReadAll (Reader [[104], [105]] None) = ([104, 105 :: byte], None)
   \<and> length [104, 105 :: byte] \<le> 9223372036
   \<and> (1::nat) < length [104, 105 :: byte]
   \<and> wallClock 1700000000123456789
   \<and> Sample_Value (builtSamples ''greeting'' (Reader [[104], [105]] None)
         1700000000123456789 ''promkv_file_content'' ! 1) = Finite 105
   \<and> Sample_Timestamp (builtSamples ''greeting'' (Reader [[104], [105]] None)
         1700000000123456789 ''promkv_file_content'' ! 1)
       = Sample_Timestamp (builtSamples ''greeting'' (Reader [[104], [105]] None)
           1700000000123456789 ''promkv_file_content'' ! 0) + 1000"
proof -
  have r: "ReadAll (Reader [[104], [105]] None) = ([104, 105 :: byte], None)"
    by (simp add: ReadAll_def)
  have n: "length [104, 105 :: byte] \<le> 9223372036" by simp
  have i: "(1::nat) < length [104, 105 :: byte]" by simp
  have w: "wallClock 1700000000123456789" by (simp add: wallClock_def)
  show ?thesis
    using r w content_samples_value_and_spacing [OF r n i, of "''greeting''" 1700000000123456789]
    by simp
qed

text \<open>
  C2, as stated, fails for a buffer of 9223372038 bytes: the offset
  \<^verbatim>\<open>time.Second * time.Duration(9223372037)\<close> wraps around in \<^verbatim>\<open>int64\<close>, and the
  last content sample is not 9223372037 seconds after the first.
\<close>

theorem content_spacing_counterexample:
  "Sample_Timestamp (builtSamples ''k'' (Reader [replicate 9223372038 0] None)
      1700000000000000000 ''promkv_file_content'' ! 9223372037)
   \<noteq> Sample_Timestamp (builtSamples ''k'' (Reader [replicate 9223372038 0] None)
      1700000000000000000 ''promkv_file_content'' ! 0) + 1000 * 9223372037"
proof -
  let ?B = "replicate 9223372038 (0 :: byte)"
  have r: "ReadAll (Reader [?B] None) = (?B, None)"
    by (simp add: ReadAll_def)
  have s: "startTimestampOf 1700000000000000000 9223372038 = 10923372035709551616"
    by (simp add: startTimestampOf_def Duration_mul_def Duration_neg_def Second_def
        Time_Add_def int64_def)
  have big: "Sample_Timestamp (contentSamples 10923372035709551616 0 ?B ! 9223372037)
               = 1699999999000"
    by (simp add: nth_contentSamples Duration_mul_def Second_def Time_Add_def
        FromTime_millis int64_def)
  have zero: "Sample_Timestamp (contentSamples 10923372035709551616 0 ?B ! 0)
               = 10923372035709"
    by (simp add: nth_contentSamples Duration_mul_def Second_def Time_Add_def
        FromTime_millis int64_def)
  show ?thesis
    by (simp add: builtSamples_content [OF r] s big zero)
qed

subsection \<open>Timestamps of the size and start samples\<close>

text \<open>
  C4, as amended. For every buffer \<open>B\<close> of at most 9223372036 bytes, the one size
  sample and the one start sample carry the timestamp of \<^verbatim>\<open>startTimestamp\<close>, the
  instant \<open>length B\<close> seconds before now, in milliseconds; content sample \<open>i\<close> carries
  the timestamp of the instant \<open>length B - i\<close> seconds before now. For a clock reading
  in the range of \<^verbatim>\<open>UnixNano\<close> the timestamp of the size and start samples is the
  timestamp of now less \<open>1000 * length B\<close>, which is the timestamp of now for the empty
  buffer only.
\<close>

theorem metadata_samples_timestamp:
  assumes "ReadAll r = (B, None)" and "length B \<le> 9223372036"
  shows "map Sample_Timestamp (builtSamples name r now ''promkv_file_size_bytes'')
           = [FromTime (now - 1000000000 * int (length B))]
       \<and> map Sample_Timestamp (builtSamples name r now ''promkv_file_timestamp_seconds'')
           = [FromTime (now - 1000000000 * int (length B))]
       \<and> (\<forall>i < length B.
            Sample_Timestamp (builtSamples name r now ''promkv_file_content'' ! i)
              = FromTime (now - 1000000000 * (int (length B) - int i)))
       \<and> (wallClock now \<longrightarrow>
            FromTime (now - 1000000000 * int (length B)) = FromTime now - 1000 * int (length B)
          \<and> (FromTime (now - 1000000000 * int (length B)) = FromTime now \<longleftrightarrow> B = []))"
proof -
  let ?n = "int (length B)"
  have size: "map Sample_Timestamp (builtSamples name r now ''promkv_file_size_bytes'')
           = [FromTime (now - 1000000000 * ?n)]"
    using assms(2) by (simp add: builtSamples_size [OF assms(1)] startTimestampOf_eq)
  have start: "map Sample_Timestamp (builtSamples name r now ''promkv_file_timestamp_seconds'')
           = [FromTime (now - 1000000000 * ?n)]"
    using assms(2) by (simp add: builtSamples_start [OF assms(1)] startTimestampOf_eq)
  have content: "\<forall>i < length B.
      Sample_Timestamp (builtSamples name r now ''promkv_file_content'' ! i)
        = FromTime (now - 1000000000 * (?n - int i))"
    using assms(2) by (simp add: builtSamples_content [OF assms(1)] content_timestamp)
  have clock: "FromTime (now - 1000000000 * ?n) = FromTime now - 1000 * ?n
             \<and> (FromTime (now - 1000000000 * ?n) = FromTime now \<longleftrightarrow> B = [])"
    if w: "wallClock now"
  proof -
    have "FromTime now = now div 1000000"
      using w by (intro FromTime_in_range) (simp_all add: wallClock_def)
    moreover have "FromTime (now - 1000000000 * ?n) = (now - 1000000000 * ?n) div 1000000"
      using w assms(2) by (intro FromTime_in_range) (simp_all add: wallClock_def)
    moreover have "(now + 1000000 * (- 1000 * ?n)) div 1000000 = now div 1000000 + (- 1000 * ?n)"
      by (simp only: div_mult_self2 [of 1000000 now "- 1000 * ?n"])
    then have "(now - 1000000000 * ?n) div 1000000 = now div 1000000 - 1000 * ?n"
      by (simp add: algebra_simps)
    ultimately show ?thesis by simp
  qed
  from size start content clock show ?thesis by blast
qed

theorem metadata_samples_timestamp_witness:
  "ReadAll (Reader [[104], [105]] None) = ([104, 105 :: byte], None)
   \<and> length [104, 105 :: byte] \<le> 9223372036
   \<and> wallClock 1700000000123456789
   \<and> (1::nat) < length [104, 105 :: byte]
   \<and> map Sample_Timestamp (builtSamples ''greeting'' (Reader [[104], [105]] None)
        1700000000123456789 ''promkv_file_size_bytes'') = [1699999998123]
   \<and> map Sample_Timestamp (builtSamples ''greeting'' (Reader [[104], [105]] None)
        1700000000123456789 ''promkv_file_timestamp_seconds'') = [1699999998123]
   \<and> Sample_Timestamp (builtSamples ''greeting'' (Reader [[104], [105]] None)
        1700000000123456789 ''promkv_file_content'' ! 1) = 1699999999123
   \<and> FromTime 1700000000123456789 = 1700000000123"
proof -
  have r: "ReadAll (Reader [[104], [105]] None) = ([104, 105 :: byte], None)"
    by (simp add: ReadAll_def)
  have n: "length [104, 105 :: byte] \<le> 9223372036" by simp
  have w: "wallClock 1700000000123456789" by (simp add: wallClock_def)
  have f: "FromTime 1700000000123456789 = 1700000000123"
    by (simp add: FromTime_millis int64_def)
  have g: "FromTime 1699999998123456789 = 1699999998123"
        "FromTime 1699999999123456789 = 1699999999123"
    by (simp_all add: FromTime_millis int64_def)
  show ?thesis
    using r w f g metadata_samples_timestamp [OF r n, of "''greeting''" 1700000000123456789]
    by simp
qed

text \<open>
  C4, as stated, fails for the two bytes of \<^verbatim>\<open>hi\<close>: the size sample is stamped two
  seconds before now.
\<close>

theorem size_timestamp_counterexample:
  "map Sample_Timestamp (builtSamples ''greeting'' (Reader [[104, 105]] None)
      1700000000123456789 ''promkv_file_size_bytes'') = [1699999998123]
   \<and> map Sample_Timestamp (builtSamples ''greeting'' (Reader [[104, 105]] None)
      1700000000123456789 ''promkv_file_size_bytes'') \<noteq> [FromTime 1700000000123456789]"
proof -
  have r: "ReadAll (Reader [[104, 105]] None) = ([104, 105 :: byte], None)"
    by (simp add: ReadAll_def)
  show ?thesis
    by (simp add: builtSamples_size [OF r] startTimestampOf_def Duration_mul_def
        Duration_neg_def Second_def Time_Add_def FromTime_millis int64_def)
qed

subsection \<open>The value of the start sample\<close>

text \<open>
  C5. The start metric is named and declared in seconds, and the value written is the
  instant of byte 0 in milliseconds since the epoch: for \<^verbatim>\<open>hi\<close> written at
  1700000000.123456789 seconds, byte 0 is anchored at 1699999998.123456789 seconds and
  the value of the start sample is 1699999998123.
\<close>

theorem start_value_in_milliseconds:
  "map Sample_Value (builtSamples ''greeting'' (Reader [[104, 105]] None)
      1700000000123456789 ''promkv_file_timestamp_seconds'') = [Finite 1699999998123]
   \<and> map Unit (filter (\<lambda>m. MetricFamilyName m = ''promkv_file_timestamp_seconds'')
        (case fst (buildWriteRequest ''greeting'' (Reader [[104, 105]] None)
            1700000000123456789) of None \<Rightarrow> [] | Some req \<Rightarrow> Metadata req))
       = [''seconds'']
   \<and> startTimestampOf 1700000000123456789 2 = 1699999998123456789"
proof -
  have r: "ReadAll (Reader [[104, 105]] None) = ([104, 105 :: byte], None)"
    by (simp add: ReadAll_def)
  have s: "startTimestampOf 1700000000123456789 2 = 1699999998123456789"
    by (simp add: startTimestampOf_def Duration_mul_def Duration_neg_def Second_def
        Time_Add_def int64_def)
  have f: "FromTime 1699999998123456789 = 1699999998123"
    by (simp add: FromTime_millis int64_def)
  have s': "startTimestampOf 1700000000123456789 (Suc (Suc 0)) = 1699999998123456789"
    using s by (simp add: numeral_2_eq_2)
  show ?thesis
    by (simp add: builtSamples_start [OF r] buildWriteRequest_read_ok [OF r] s s' f
        float64_of_int_def round53_def)
qed

subsection \<open>The read path: cutting the content values\<close>



lemma slice_to_within:
  assumes "0 \<le> n" "n \<le> int (length points)"
  shows "slice_to p points n = Returns (take (nat n) points)"
proof -
  have "int (append_cap p (length points)) \<ge> n"
    using assms by (cases "length points = 0") (simp_all add: append_cap_def)
  then show ?thesis
    using assms by (simp add: slice_to_def Let_def)
qed

lemma contentBytes_within:
  assumes "m \<noteq> []" and "0 \<le> truncate_rat q"
    and "truncate_rat q \<le> int (length (Values (last m)))" and "truncate_rat q < 2 ^ 63"
  shows "contentBytes p (Matrix m) (Finite q) =
    Returns (map (byte_of_float64 p)
      (take (nat (truncate_rat q)) (map Pair_Value (Values (last m)))))"
proof -
  have g: "getValues (Matrix m) = Returns (map Pair_Value (Values (last m)))"
    using assms(1) by (simp add: getValues_def)
  have c: "int64_of_float64 p (Finite q) = truncate_rat q"
    using assms(2,4) by simp
  have s: "slice_to p (map Pair_Value (Values (last m))) (truncate_rat q)
         = Returns (take (nat (truncate_rat q)) (map Pair_Value (Values (last m))))"
    using assms(2,3) by (intro slice_to_within) simp_all
  show ?thesis
    by (simp add: contentBytes_def g c s del: int64_of_float64.simps)
qed

text \<open>
  C6, as amended. For every content answer that is a matrix with at least one series
  whose last series holds at least \<^verbatim>\<open>int(fileSizeBytes)\<close> samples, that number not
  being negative, \<open>contentBytes\<close> returns, without a panic, the bytes of the first
  \<^verbatim>\<open>int(fileSizeBytes)\<close> values of the last series, exactly that many, further points
  being dropped; a value whose truncation lies from 0 to 255 becomes the byte of that
  number.
\<close>

theorem contentBytes_first_values:
  assumes "m \<noteq> []" and "0 \<le> truncate_rat q"
    and "truncate_rat q \<le> int (length (Values (last m)))" and "truncate_rat q < 2 ^ 63"
  shows "(\<exists>bb. contentBytes p (Matrix m) (Finite q) = Returns bb
            \<and> bb = map (byte_of_float64 p)
                     (take (nat (truncate_rat q)) (map Pair_Value (Values (last m))))
            \<and> int (length bb) = truncate_rat q)
       \<and> (\<forall>x. 0 \<le> truncate_rat x \<and> truncate_rat x < 256 \<longrightarrow>
              uint (byte_of_float64 p (Finite x)) = truncate_rat x)"
proof -
  have "\<forall>x. 0 \<le> truncate_rat x \<and> truncate_rat x < 256 \<longrightarrow>
          uint (byte_of_float64 p (Finite x)) = truncate_rat x"
    by (simp add: uint_word_of_int take_bit_int_eq_self)
  moreover have "int (length (take (nat (truncate_rat q)) (map Pair_Value (Values (last m)))))
      = truncate_rat q"
    using assms(2,3) by simp
  ultimately show ?thesis
    using contentBytes_within [OF assms, of p] by simp
qed

theorem contentBytes_first_values_witness:
  "[\<lparr>Metric = Map.empty,
      Values = [\<lparr>Pair_Timestamp = 1000, Pair_Value = Finite 104\<rparr>,
                \<lparr>Pair_Timestamp = 2000, Pair_Value = Finite 105\<rparr>,
                \<lparr>Pair_Timestamp = 3000, Pair_Value = Finite 105\<rparr>]\<rparr>] \<noteq> []
   \<and> 0 \<le> truncate_rat 2 \<and> truncate_rat 2 \<le> 3 \<and> truncate_rat 2 < 2 ^ 63
   \<and> 0 \<le> truncate_rat (209 / 2) \<and> truncate_rat (209 / 2) < 256
   \<and> contentBytes examplePlatform
        (Matrix [\<lparr>Metric = Map.empty,
           Values = [\<lparr>Pair_Timestamp = 1000, Pair_Value = Finite 104\<rparr>,
                     \<lparr>Pair_Timestamp = 2000, Pair_Value = Finite 105\<rparr>,
                     \<lparr>Pair_Timestamp = 3000, Pair_Value = Finite 105\<rparr>]\<rparr>])
        (Finite 2) = Returns [104, 105]
   \<and> uint (byte_of_float64 examplePlatform (Finite (209 / 2))) = 104"
proof -
  let ?m = "[\<lparr>Metric = Map.empty,
      Values = [\<lparr>Pair_Timestamp = 1000, Pair_Value = Finite 104\<rparr>,
                \<lparr>Pair_Timestamp = 2000, Pair_Value = Finite 105\<rparr>,
                \<lparr>Pair_Timestamp = 3000, Pair_Value = Finite 105\<rparr>]\<rparr>]"
  have "\<lfloor>of_int 209 / of_int 2 :: rat\<rfloor> = 209 div 2"
    by (rule floor_divide_of_int_eq)
  then have t: "truncate_rat 2 = 2" "truncate_rat 104 = 104" "truncate_rat 105 = 105"
    "truncate_rat (209 / 2) = 104"
    by (simp_all add: truncate_rat_def)
  have h: "?m \<noteq> []" "0 \<le> truncate_rat 2"
    "truncate_rat 2 \<le> int (length (Values (last ?m)))" "truncate_rat 2 < 2 ^ 63"
    by (simp_all add: t)
  note first = contentBytes_first_values [OF h, of examplePlatform]
  have tk: "take (nat (truncate_rat 2)) (map Pair_Value (Values (last ?m)))
              = [Finite 104, Finite 105]"
    by (simp add: t numeral_2_eq_2)
  from first have "contentBytes examplePlatform (Matrix ?m) (Finite 2)
      = Returns (map (byte_of_float64 examplePlatform)
          (take (nat (truncate_rat 2)) (map Pair_Value (Values (last ?m)))))"
    by blast
  then have a: "contentBytes examplePlatform (Matrix ?m) (Finite 2) = Returns [104, 105]"
    by (simp only: tk) (simp add: t)
  have b: "uint (byte_of_float64 examplePlatform (Finite (209 / 2))) = 104"
    using first [THEN conjunct2, rule_format, of "209 / 2"] by (simp only: t) simp
  show ?thesis
    using a b by (simp add: t)
qed

text \<open>
  C6, as stated, fails for an answer without series, where indexing the last series
  panics, and for an answer with fewer points than \<^verbatim>\<open>int(fileSizeBytes)\<close>, where the
  slice expression panics: here a series without points, of capacity 0 on every
  platform, and a size of one byte.
\<close>

theorem contentBytes_counterexample:
  "contentBytes examplePlatform (Matrix []) (Finite 0) = Panics IndexOutOfRange
   \<and> contentBytes examplePlatform (Matrix [\<lparr>Metric = Map.empty, Values = []\<rparr>]) (Finite 1)
       = Panics SliceBoundsOutOfRange"
  by (simp add: contentBytes_def getValues_def slice_to_def append_cap_def truncate_rat_def)

subsection \<open>The write path: the answer of the ingestion endpoint\<close>

lemma status_2xx: "(code::int) sdiv 100 = 2 \<longleftrightarrow> 200 \<le> code \<and> code \<le> 299"
proof (cases "0 \<le> code")
  case True
  then have "code sdiv 100 = code div 100"
    by (cases "code = 0") (simp_all add: signed_divide_int_def)
  then show ?thesis by auto
next
  case False
  then have "code sdiv 100 = - (\<bar>code\<bar> div 100)"
    by (simp add: signed_divide_int_def)
  moreover have "0 \<le> \<bar>code\<bar> div 100" by simp
  ultimately show ?thesis using False by linarith
qed

lemma Read_deliver:
  assumes "0 < c" and "Read rs c = (d, e, rs')" and "d \<noteq> [] \<or> e \<noteq> None"
  shows "deliverFrom k rs = d @ (if e = None then deliverFrom maxConsecutiveEmptyReads rs' else [])"
proof (cases rs)
  case Nil
  with assms show ?thesis by simp
next
  case (Cons x rest)
  obtain d0 e0 where x: "x = (d0, e0)" by (cases x)
  show ?thesis
  proof (cases "length d0 \<le> c")
    case True
    with assms Cons x show ?thesis by auto
  next
    case False
    with assms(1) have "d0 \<noteq> []" "take c d0 \<noteq> []" "drop c d0 \<noteq> []"
      by auto
    with False assms Cons x show ?thesis
      by (cases "e0 = None") auto
  qed
qed

lemma Read_length: "Read rs c = (d, e, rs') \<Longrightarrow> length d \<le> c"
  by (cases rs) (auto split: if_splits)

lemma Read_empty:
  assumes "Read rs c = ([], None, rs')" and "0 < c"
  shows "\<exists>rest. rs = ([], None) # rest \<and> rs' = rest"
proof (cases rs)
  case Nil
  with assms show ?thesis by simp
next
  case (Cons x rest)
  obtain d0 e0 where x: "x = (d0, e0)" by (cases x)
  from assms Cons x show ?thesis
    by (cases "length d0 \<le> c") auto
qed

lemma fill_deliver:
  assumes "0 < c" and "fill k rs c = (d, e, rs')"
  shows "deliverFrom k rs = d @ (if e = None then deliverFrom maxConsecutiveEmptyReads rs' else [])
       \<and> length d \<le> c"
  using assms(2)
proof (induction k arbitrary: rs)
  case 0
  obtain b f q where rd: "Read rs c = (b, f, q)" by (cases "Read rs c")
  show ?case
  proof (cases "b = [] \<and> f = None")
    case True
    with Read_empty [of rs c q] rd assms(1) obtain rest where "rs = ([], None) # rest"
      by auto
    with True rd "0.prems" show ?thesis by auto
  next
    case False
    with rd "0.prems" have "(d, e, rs') = (b, f, q)"
      by (auto split: option.splits if_splits)
    with Read_deliver [OF assms(1) rd, of 0] Read_length [OF rd] False show ?thesis
      by auto
  qed
next
  case (Suc k)
  obtain b f q where rd: "Read rs c = (b, f, q)" by (cases "Read rs c")
  show ?case
  proof (cases "b = [] \<and> f = None")
    case True
    with Read_empty [of rs c q] rd assms(1) have rs: "rs = ([], None) # q"
      by auto
    from True rd Suc.prems have "fill k q c = (d, e, rs')" by simp
    from Suc.IH [OF this] rs show ?thesis by simp
  next
    case False
    with rd Suc.prems have "(d, e, rs') = (b, f, q)"
      by (auto split: option.splits if_splits)
    with Read_deliver [OF assms(1) rd, of "Suc k"] Read_length [OF rd] False show ?thesis
      by auto
  qed
qed

lemma takeWhile_shorter:
  assumes "x \<in> set xs" and "\<not> P x"
  shows "length (takeWhile P xs) < length xs"
proof -
  have "takeWhile P xs \<noteq> xs"
    using assms by (auto simp: takeWhile_eq_all_conv)
  moreover have "length (takeWhile P xs) \<le> length xs"
    by (rule length_takeWhile_le)
  moreover have "takeWhile P xs = take (length (takeWhile P xs)) xs"
    by (rule takeWhile_eq_take)
  ultimately show ?thesis
    by (metis le_neq_implies_less take_all order_refl)
qed

text \<open>
  The loop of \<^verbatim>\<open>Scan\<close> against what the body delivers: when the first line of the
  data read so far and the data to come is shorter than \<^verbatim>\<open>MaxScanTokenSize\<close>, the
  text taken from the scanner is that line without its carriage return; when it is longer,
  \<^verbatim>\<open>Scan\<close> returns false. At exactly \<^verbatim>\<open>MaxScanTokenSize\<close> bytes the outcome turns
  on how the end of the input arrives, and the lemma says nothing.
\<close>

lemma scanLoop_first_line:
  "length data \<le> buflen \<Longrightarrow> buflen \<le> 65536 \<Longrightarrow>
   (length (takeWhile (\<lambda>c. c \<noteq> CHR 0x0A)
      (data @ (if err = None then deliverFrom maxConsecutiveEmptyReads rs else [])))
      < 65536 \<longrightarrow>
    (case scanLoop buflen data err rs of Some t \<Rightarrow> t | None \<Rightarrow> [])
      = dropCR (takeWhile (\<lambda>c. c \<noteq> CHR 0x0A)
          (data @ (if err = None then deliverFrom maxConsecutiveEmptyReads rs else []))))
   \<and> (65536 < length (takeWhile (\<lambda>c. c \<noteq> CHR 0x0A)
          (data @ (if err = None then deliverFrom maxConsecutiveEmptyReads rs else []))) \<longrightarrow>
      scanLoop buflen data err rs = None)"
proof (induction buflen data err rs rule: scanLoop.induct)
  case (1 buflen data err rs)
  let ?P = "\<lambda>c. c \<noteq> CHR 0x0A"
  let ?all = "data @ (if err = None then deliverFrom maxConsecutiveEmptyReads rs else [])"
  show ?case
  proof (cases "CHR 0x0A \<in> set data")
    case True
    then have ne: "data \<noteq> []" by auto
    have res: "scanLoop buflen data err rs = Some (dropCR (takeWhile ?P data))"
      using True ne by (subst scanLoop.simps) (simp add: ScanLines_def)
    have fl: "takeWhile ?P ?all = takeWhile ?P data"
      using True by (intro takeWhile_append1 [of "CHR 0x0A"]) simp_all
    have "length (takeWhile ?P data) < length data"
      using True by (intro takeWhile_shorter [of "CHR 0x0A"]) simp_all
    with "1.prems" have "length (takeWhile ?P data) < 65536"
      by linarith
    then have "length (takeWhile ?P ?all) < 65536"
      by (simp only: fl)
    then show ?thesis
      by (simp only: res fl) simp
  next
    case False
    then have keep: "takeWhile ?P (data @ ys) = data @ takeWhile ?P ys" for ys
      by (intro takeWhile_append2) auto
    show ?thesis
    proof (cases err)
      case (Some e)
      have fl: "takeWhile ?P ?all = data"
        using keep [of "[]"] Some by simp
      have res: "(case scanLoop buflen data err rs of Some t \<Rightarrow> t | None \<Rightarrow> []) = dropCR data"
        using False Some
        by (subst scanLoop.simps) (simp add: ScanLines_def dropCR_def)
      from "1.prems" have "\<not> 65536 < length data" by linarith
      then show ?thesis
        by (simp only: fl res) simp
    next
      case None
      have tok: "(if data \<noteq> [] \<or> err \<noteq> None then ScanLines data (err \<noteq> None) else None) = None"
        using False None by (simp add: ScanLines_def)
      show ?thesis
      proof (cases "length data = buflen \<and> (MaxScanTokenSize \<le> buflen \<or> maxInt div 2 < buflen)")
        case True
        have res: "scanLoop buflen data err rs = None"
          using True None tok by (subst scanLoop.simps) simp
        have "maxInt div 2 < buflen \<Longrightarrow> MaxScanTokenSize \<le> buflen"
          by (simp add: maxInt_def MaxScanTokenSize_def)
        with True "1.prems" have "length data = 65536"
          by (auto simp: MaxScanTokenSize_def)
        then have "65536 \<le> length (takeWhile ?P ?all)"
          by (simp add: keep)
        then show ?thesis
          by (simp add: res)
      next
        case full: False
        define newSize where "newSize =
          (if length data = buflen
           then min (if buflen * 2 = 0 then startBufSize else buflen * 2) MaxScanTokenSize
           else buflen)"
        obtain d e rs' where
          fl: "fill maxConsecutiveEmptyReads rs (newSize - length data) = (d, e, rs')"
          by (cases "fill maxConsecutiveEmptyReads rs (newSize - length data)")
        have room: "length data < newSize" and cap: "newSize \<le> 65536"
          using full "1.prems"
          by (auto simp: newSize_def MaxScanTokenSize_def startBufSize_def maxInt_def)
        then have pos: "0 < newSize - length data"
          by simp
        have res: "scanLoop buflen data err rs = scanLoop newSize (data @ d) e rs'"
          using full None tok fl
          by (subst scanLoop.simps) (auto simp: newSize_def [symmetric] Let_def)
        have all: "?all = (data @ d) @ (if e = None then deliverFrom maxConsecutiveEmptyReads rs' else [])"
          using fill_deliver [OF pos fl] None by simp
        have len: "length (data @ d) \<le> newSize"
          using fill_deliver [OF pos fl, THEN conjunct2] room by simp
        have nerr: "\<not> err \<noteq> None"
          using None by simp
        note ih = "1.IH" [OF tok nerr full newSize_def fl [symmetric] refl len cap]
        show ?thesis
          unfolding res all by (rule ih)
      qed
    qed
  qed
qed

lemma Scan_first_line:
  "(length (firstLine body) < 65536 \<longrightarrow>
      (case Scan body of Some t \<Rightarrow> t | None \<Rightarrow> []) = dropCR (firstLine body))
   \<and> (65536 < length (firstLine body) \<longrightarrow> Scan body = None)"
  using scanLoop_first_line [of "[]" 0 None body]
  by (simp add: Scan_def firstLine_def delivered_def)

text \<open>
  C7, as amended. Once the request is built, encoded and sent, \<open>KV_Set\<close> returns the
  client's error unchanged when the client fails, no error when the status code is from
  200 to 299, and for every other status code the error
  \<^verbatim>\<open>server returned HTTP status <status>: <line>\<close>, where the line is the first line
  that the response body delivers, without its line end, when that line is shorter than
  65536 bytes, and is empty when that line is longer than 65536 bytes. (For a line of
  exactly 65536 bytes the diagnostic is the line or is empty, as the end of the body
  arrives with its last bytes or after them.)
\<close>

theorem Set_response_handling:
  assumes "buildWriteRequest name r now = (req, None)"
    and "Marshal lib req = Inr pBuf"
    and "NewRequestWithContext lib ''POST'' (WriteURL (opts db)) (snappy_Encode lib pBuf)
           = Inr httpReq"
    and "(case Client (opts db) of None \<Rightarrow> DefaultClient lib | Some c \<Rightarrow> c)
           (httpReq\<lparr>Header := writeHeaders (Header httpReq)\<rparr>) = answer"
  shows "(\<forall>err. answer = Inl err \<longrightarrow> KV_Set lib db name r now = Some err)
       \<and> (\<forall>resp. answer = Inr resp \<and> 200 \<le> StatusCode resp \<and> StatusCode resp \<le> 299 \<longrightarrow>
             KV_Set lib db name r now = None)
       \<and> (\<forall>resp. answer = Inr resp \<and> \<not> (200 \<le> StatusCode resp \<and> StatusCode resp \<le> 299) \<longrightarrow>
             (\<exists>line. KV_Set lib db name r now
                       = Some (Error (''server returned HTTP status '' @ Status resp
                                       @ '': '' @ line))
                \<and> (length (firstLine (Body resp)) < 65536 \<longrightarrow>
                      line = dropCR (firstLine (Body resp)))
                \<and> (65536 < length (firstLine (Body resp)) \<longrightarrow> line = [])))"
proof (intro conjI allI impI)
  fix err
  assume "answer = Inl err"
  with assms show "KV_Set lib db name r now = Some err"
    by (simp add: KV_Set_def Let_def)
next
  fix resp
  assume "answer = Inr resp \<and> 200 \<le> StatusCode resp \<and> StatusCode resp \<le> 299"
  then have "answer = Inr resp" "StatusCode resp sdiv 100 = 2"
    by (simp_all add: status_2xx)
  with assms show "KV_Set lib db name r now = None"
    by (simp add: KV_Set_def Let_def)
next
  fix resp
  assume a: "answer = Inr resp \<and> \<not> (200 \<le> StatusCode resp \<and> StatusCode resp \<le> 299)"
  let ?line = "case Scan (Body resp) of Some t \<Rightarrow> t | None \<Rightarrow> []"
  from a have "answer = Inr resp" "StatusCode resp sdiv 100 \<noteq> 2"
    by (simp_all add: status_2xx)
  with assms have "KV_Set lib db name r now
      = Some (Error (''server returned HTTP status '' @ Status resp @ '': '' @ ?line))"
    by (simp add: KV_Set_def Let_def Errorf_status_def)
  moreover have "length (firstLine (Body resp)) < 65536 \<longrightarrow>
      ?line = dropCR (firstLine (Body resp))"
    using Scan_first_line [of "Body resp"] by blast
  moreover have "65536 < length (firstLine (Body resp)) \<longrightarrow> ?line = []"
    using Scan_first_line [of "Body resp"] by auto
  ultimately show "\<exists>line. KV_Set lib db name r now
                       = Some (Error (''server returned HTTP status '' @ Status resp
                                       @ '': '' @ line))
                \<and> (length (firstLine (Body resp)) < 65536 \<longrightarrow>
                      line = dropCR (firstLine (Body resp)))
                \<and> (65536 < length (firstLine (Body resp)) \<longrightarrow> line = [])"
    by blast
qed

lemma example_request:
  "\<exists>req. buildWriteRequest ''greeting'' (Reader [[104, 105]] None) 1700000000123456789
           = (req, None)
       \<and> Marshal exampleLibrary req = Inr []
       \<and> NewRequestWithContext exampleLibrary ''POST'' (WriteURL (opts (exampleKV cli)))
            (snappy_Encode exampleLibrary [])
           = Inr \<lparr>Method = ''POST'', URL = ''http://localhost:9090/api/v1/write'',
                  Header = Map.empty, Request_Body = []\<rparr>"
proof -
  have r: "ReadAll (Reader [[104, 105]] None) = ([104, 105 :: byte], None)"
    by (simp add: ReadAll_def)
  show ?thesis
    by (simp add: buildWriteRequest_read_ok [OF r] exampleLibrary_def exampleKV_def)
qed

theorem Set_response_handling_witness:
  "KV_Set exampleLibrary
      (exampleKV (respond 500 ''500 Internal Server Error'' [(''out of memory'', Some EOF)]))
      ''greeting'' (Reader [[104, 105]] None) 1700000000123456789
     = Some (Error ''server returned HTTP status 500 Internal Server Error: out of memory'')
   \<and> KV_Set exampleLibrary (exampleKV (respond 204 ''204 No Content'' []))
      ''greeting'' (Reader [[104, 105]] None) 1700000000123456789 = None
   \<and> KV_Set exampleLibrary (exampleKV (\<lambda>req. Inl (Error ''connection reset by peer'')))
      ''greeting'' (Reader [[104, 105]] None) 1700000000123456789
     = Some (Error ''connection reset by peer'')"
proof -
  let ?q = "\<lparr>Method = ''POST'', URL = ''http://localhost:9090/api/v1/write'',
             Header = Map.empty, Request_Body = []\<rparr>"
  let ?q' = "?q\<lparr>Header := writeHeaders (Header ?q)\<rparr>"
  have handled: "(\<forall>err. cli ?q' = Inl err \<longrightarrow>
          KV_Set exampleLibrary (exampleKV cli) ''greeting'' (Reader [[104, 105]] None)
            1700000000123456789 = Some err)
     \<and> (\<forall>resp. cli ?q' = Inr resp \<and> 200 \<le> StatusCode resp \<and> StatusCode resp \<le> 299 \<longrightarrow>
          KV_Set exampleLibrary (exampleKV cli) ''greeting'' (Reader [[104, 105]] None)
            1700000000123456789 = None)
     \<and> (\<forall>resp. cli ?q' = Inr resp \<and> \<not> (200 \<le> StatusCode resp \<and> StatusCode resp \<le> 299) \<longrightarrow>
          (\<exists>line. KV_Set exampleLibrary (exampleKV cli) ''greeting''
                     (Reader [[104, 105]] None) 1700000000123456789
                   = Some (Error (''server returned HTTP status '' @ Status resp
                                   @ '': '' @ line))
             \<and> (length (firstLine (Body resp)) < 65536 \<longrightarrow>
                   line = dropCR (firstLine (Body resp)))
             \<and> (65536 < length (firstLine (Body resp)) \<longrightarrow> line = [])))" for cli
  proof -
    from example_request [of cli] obtain req where
      b: "buildWriteRequest ''greeting'' (Reader [[104, 105]] None) 1700000000123456789
            = (req, None)"
      and m: "Marshal exampleLibrary req = Inr []"
      and n: "NewRequestWithContext exampleLibrary ''POST'' (WriteURL (opts (exampleKV cli)))
                (snappy_Encode exampleLibrary []) = Inr ?q"
      by blast
    have c: "(case Client (opts (exampleKV cli)) of None \<Rightarrow> DefaultClient exampleLibrary
              | Some c \<Rightarrow> c) ?q' = cli ?q'"
      by (simp add: exampleKV_def)
    show ?thesis
      by (rule Set_response_handling [OF b m n c])
  qed
  let ?r500 = "\<lparr>StatusCode = 500, Status = ''500 Internal Server Error'',
                Body = [(''out of memory'', Some EOF)]\<rparr>"
  have l: "firstLine [(''out of memory'', Some EOF)] = ''out of memory''"
    by (simp add: firstLine_def delivered_def)
  from handled [of "respond 500 ''500 Internal Server Error'' [(''out of memory'', Some EOF)]",
      THEN conjunct2, THEN conjunct2, rule_format, of ?r500]
  have a: "KV_Set exampleLibrary
      (exampleKV (respond 500 ''500 Internal Server Error'' [(''out of memory'', Some EOF)]))
      ''greeting'' (Reader [[104, 105]] None) 1700000000123456789
     = Some (Error ''server returned HTTP status 500 Internal Server Error: out of memory'')"
    by (auto simp: respond_def l dropCR_def)
  let ?r204 = "\<lparr>StatusCode = 204, Status = ''204 No Content'', Body = []\<rparr>"
  from handled [of "respond 204 ''204 No Content'' []",
      THEN conjunct2, THEN conjunct1, rule_format, of ?r204]
  have b: "KV_Set exampleLibrary (exampleKV (respond 204 ''204 No Content'' []))
      ''greeting'' (Reader [[104, 105]] None) 1700000000123456789 = None"
    by (simp add: respond_def)
  from handled [of "\<lambda>req. Inl (Error ''connection reset by peer'')",
      THEN conjunct1, rule_format, of "Error ''connection reset by peer''"]
  have c: "KV_Set exampleLibrary (exampleKV (\<lambda>req. Inl (Error ''connection reset by peer'')))
      ''greeting'' (Reader [[104, 105]] None) 1700000000123456789
     = Some (Error ''connection reset by peer'')"
    by simp
  from a b c show ?thesis by blast
qed

text \<open>
  C7, as stated, fails for a response whose first line does not fit the scanner's buffer:
  for status 500 and a body of one line of 70000 bytes the error carries the status and
  an empty diagnostic.
\<close>

theorem Set_long_line_counterexample:
  "KV_Set exampleLibrary
      (exampleKV (respond 500 ''500 Internal Server Error''
         [(replicate 70000 (CHR ''x''), Some EOF)]))
      ''greeting'' (Reader [[104, 105]] None) 1700000000123456789
     = Some (Error ''server returned HTTP status 500 Internal Server Error: '')
   \<and> firstLine [(replicate 70000 (CHR ''x''), Some EOF)] = replicate 70000 (CHR ''x'')"
proof -
  have r: "ReadAll (Reader [[104, 105]] None) = ([104, 105 :: byte], None)"
    by (simp add: ReadAll_def)
  have l: "firstLine [(replicate 70000 (CHR ''x''), Some EOF)] = replicate 70000 (CHR ''x'')"
    by (simp add: firstLine_def delivered_def takeWhile_replicate)
  have s: "Scan [(replicate 70000 (CHR ''x''), Some EOF)] = None"
    using Scan_first_line [of "[(replicate 70000 (CHR ''x''), Some EOF)]"]
    by (simp add: l)
  show ?thesis
    by (simp add: KV_Set_def buildWriteRequest_read_ok [OF r] exampleLibrary_def exampleKV_def
        respond_def s l Errorf_status_def Let_def signed_divide_int_def)
qed

subsection \<open>The read path on answers that show the write\<close>





subsection \<open>The reference backend\<close>
















subsection \<open>The round trip\<close>




end
